theory Spec2Isabelle
  imports Main "HOL-Library.Sublist" "HOL-Library.Word"
begin

section \<open>Python strings and the string primitives the generator calls\<close>

text \<open>
  A Python \<open>str\<close> is a sequence of Unicode code points, so it is modelled as a list of
  natural numbers. \<open>len(s.encode('utf-8'))\<close> counts bytes, not code points, hence the
  encoder is modelled as well. Literals of the source are written with \<open>str\<close>.
\<close>

type_synonym pystr = "nat list"

definition str :: "string \<Rightarrow> pystr" where
  "str cs = map of_char cs"

datatype error = UnicodeEncodeError | ValueError | AttributeError | KeyError

text \<open>
  \<open>str.encode('utf-8')\<close> with the default \<open>errors='strict'\<close>: one to four bytes per code
  point; a surrogate (U+D800 .. U+DFFF) raises UnicodeEncodeError. A number from
  0x110000 on is no code point (no Python string holds it); the model gives it the
  encoder's error too.
\<close>

definition encode_codepoint :: "nat \<Rightarrow> error + 8 word list" where
  "encode_codepoint c =
     (if c < 0x80 then Inr [of_nat c]
      else if c < 0x800 then Inr [of_nat (0xC0 + c div 64), of_nat (0x80 + c mod 64)]
      else if c < 0x10000 then
        (if 0xD800 \<le> c \<and> c \<le> 0xDFFF then Inl UnicodeEncodeError
         else Inr [of_nat (0xE0 + c div 4096), of_nat (0x80 + (c div 64) mod 64),
                   of_nat (0x80 + c mod 64)])
      else if c < 0x110000 then
        Inr [of_nat (0xF0 + c div 262144), of_nat (0x80 + (c div 4096) mod 64),
             of_nat (0x80 + (c div 64) mod 64), of_nat (0x80 + c mod 64)]
      else Inl UnicodeEncodeError)"

fun encode_utf8 :: "pystr \<Rightarrow> error + 8 word list" where
  "encode_utf8 [] = Inr []"
| "encode_utf8 (c # cs) =
     (case encode_codepoint c of
        Inl e \<Rightarrow> Inl e
      | Inr bs \<Rightarrow> (case encode_utf8 cs of Inl e \<Rightarrow> Inl e | Inr rest \<Rightarrow> Inr (bs @ rest)))"

text \<open>\<open>len(s.encode('utf-8'))\<close>: the number of bytes of the encoding, or the encoder's error.\<close>

definition utf8_length :: "pystr \<Rightarrow> error + nat" where
  "utf8_length s = (case encode_utf8 s of Inl e \<Rightarrow> Inl e | Inr bs \<Rightarrow> Inr (length bs))"

text \<open>\<open>s.startswith(p)\<close>.\<close>

definition startswith :: "pystr \<Rightarrow> pystr \<Rightarrow> bool" where
  "startswith s p = prefix p s"

text \<open>\<open>sub in s\<close> for two strings: \<open>sub\<close> occurs in \<open>s\<close> as a contiguous substring.\<close>

fun str_contains :: "pystr \<Rightarrow> pystr \<Rightarrow> bool" where
  "str_contains sub [] = (sub = [])"
| "str_contains sub (c # cs) = (prefix sub (c # cs) \<or> str_contains sub cs)"

text \<open>
  \<open>s.replace(old, new)\<close>: every non-overlapping occurrence of \<open>old\<close>, found from left
  to right, becomes \<open>new\<close>; an empty \<open>old\<close> matches before every character and at the
  end.
\<close>

function str_replace :: "pystr \<Rightarrow> pystr \<Rightarrow> pystr \<Rightarrow> pystr" where
  "str_replace s old new =
     (if old = [] then new @ concat (map (\<lambda>c. c # new) s)
      else if s = [] then []
      else if prefix old s then new @ str_replace (drop (length old) s) old new
      else hd s # str_replace (tl s) old new)"
  by pat_completeness auto
termination
  by (relation "measure (\<lambda>(s, old, new). length s)") auto

text \<open>
  \<open>s.split(sep)\<close> with an explicit separator: the scan collects the current segment in
  \<open>cur\<close> and closes it at every occurrence of \<open>sep\<close>; the empty string gives one empty
  segment. An empty separator raises ValueError.
\<close>

function split_from :: "pystr \<Rightarrow> pystr \<Rightarrow> pystr \<Rightarrow> pystr list" where
  "split_from sep cur s =
     (if s = [] then [cur]
      else if sep \<noteq> [] \<and> prefix sep s then cur # split_from sep [] (drop (length sep) s)
      else split_from sep (cur @ [hd s]) (tl s))"
  by pat_completeness auto
termination
  by (relation "measure (\<lambda>(sep, cur, s). length s)") auto

definition str_split :: "pystr \<Rightarrow> pystr \<Rightarrow> error + pystr list" where
  "str_split s sep = (if sep = [] then Inl ValueError else Inr (split_from sep [] s))"

text \<open>
  The strings that have a UTF-8 encoding: every element is a Unicode scalar value, a code
  point up to U+10FFFF outside the surrogate range.
\<close>

definition unicode_scalar :: "nat \<Rightarrow> bool" where
  "unicode_scalar c = (c < 0x110000 \<and> \<not> (0xD800 \<le> c \<and> c \<le> 0xDFFF))"

definition utf8_string :: "pystr \<Rightarrow> bool" where
  "utf8_string s = list_all unicode_scalar s"

section \<open>Topic validation and sanitization\<close>

definition MQTT_TOPIC_EXCLUSION_CHARS :: "pystr list" where
  "MQTT_TOPIC_EXCLUSION_CHARS = [str ''+'', str ''#'', str ''*'', str ''>'', str ''$'']"

text \<open>
  \<open>validate_mqtt_topic\<close>: the four checks in the order of the source. Only the length
  check can raise (through the encoder), and it is reached only when the first two
  checks have passed.
\<close>

definition validate_mqtt_topic :: "pystr \<Rightarrow> error + bool" where
  "validate_mqtt_topic topic_name =
     (if list_ex (\<lambda>char. str_contains char topic_name) MQTT_TOPIC_EXCLUSION_CHARS
      then Inr False
      else if startswith topic_name (str ''$'') \<and>
              \<not> (startswith topic_name (str ''$SYS/'') \<or>
                 startswith topic_name (str ''$share/'') \<or>
                 startswith topic_name (str ''$noexport/''))
      then Inr False
      else (case utf8_length topic_name of
              Inl e \<Rightarrow> Inl e
            | Inr n \<Rightarrow>
                if n > 250 then Inr False
                else (case str_split topic_name (str ''/'') of
                        Inl e \<Rightarrow> Inl e
                      | Inr levels \<Rightarrow> if length levels > 128 then Inr False else Inr True)))"

text \<open>
  The four checks as the specification words them, to compare \<open>validate_mqtt_topic\<close> with:
  no exclusion character anywhere; no leading \<open>$\<close> outside the reserved prefixes; at
  most 250 bytes of UTF-8; at most 128 segments, where the segments of a string are one
  more than its \<open>/\<close> characters (so the empty string has one segment and every
  delimiter, consecutive or not, adds one).
\<close>

definition character_legal :: "pystr \<Rightarrow> bool" where
  "character_legal s = (\<forall>c \<in> set (str ''+#*>$''). c \<notin> set s)"

definition RESERVED_PREFIXES :: "pystr list" where
  "RESERVED_PREFIXES = [str ''$SYS/'', str ''$share/'', str ''$noexport/'']"

definition leading_dollar_legal :: "pystr \<Rightarrow> bool" where
  "leading_dollar_legal s =
     (\<not> (startswith s (str ''$'') \<and> \<not> list_ex (\<lambda>p. startswith s p) RESERVED_PREFIXES))"

definition length_legal :: "pystr \<Rightarrow> bool" where
  "length_legal s = (case utf8_length s of Inl e \<Rightarrow> False | Inr n \<Rightarrow> n \<le> 250)"

definition segment_count :: "pystr \<Rightarrow> nat" where
  "segment_count s = Suc (length (filter (\<lambda>c. c = of_char (CHR ''/'')) s))"

definition depth_legal :: "pystr \<Rightarrow> bool" where
  "depth_legal s = (segment_count s \<le> 128)"

text \<open>The loop of \<open>sanitize_mqtt_topic\<close>: one \<open>replace\<close> per exclusion character, in list order.\<close>

definition replace_restricted :: "pystr \<Rightarrow> pystr" where
  "replace_restricted topic_name =
     fold (\<lambda>char sanitized_name. str_replace sanitized_name char (str ''_''))
          MQTT_TOPIC_EXCLUSION_CHARS topic_name"

definition sanitize_mqtt_topic :: "pystr \<Rightarrow> pystr" where
  "sanitize_mqtt_topic topic_name =
     (let sanitized_name = replace_restricted topic_name
      in if startswith sanitized_name (str ''$'') \<and>
            \<not> (startswith sanitized_name (str ''$SYS/'') \<or>
               startswith sanitized_name (str ''$share/'') \<or>
               startswith sanitized_name (str ''$noexport/''))
         then str ''_'' @ drop 1 sanitized_name
         else sanitized_name)"

text \<open>
  The text "replace every occurrence of \<open>+\<close>, \<open>#\<close>, \<open>*\<close>, \<open>>\<close> and \<open>$\<close> with \<open>_\<close>", written
  directly as one pass over the characters; \<open>sanitize_mqtt_topic\<close> is compared with it.
\<close>

definition replace_each_exclusion_char :: "pystr \<Rightarrow> pystr" where
  "replace_each_exclusion_char s =
     map (\<lambda>c. if c \<in> set (str ''+#*>$'') then of_char (CHR ''_'') else c) s"

section \<open>The row loop of \<open>generate_telegraf_config\<close>\<close>

text \<open>
  \<open>csv.DictReader\<close> yields one dictionary per record, from column names to the field,
  which is a string, or \<open>None\<close> where the record is shorter than the header. The loop
  mutates the two counters of \<open>self\<close> and appends to the local list \<open>nodes\<close>. Reading the
  file and logging are not modelled.

  A node is the dictionary appended to \<open>nodes\<close>; its key \<open>'identifier'\<close> is the field
  \<open>identifier_field\<close> (the bare name is reserved in Isabelle). The locals \<open>namespace\<close>,
  \<open>identifier\<close> and \<open>mqtt_topic\<close> of the loop body carry the suffix \<open>_v\<close>, to keep
  them apart from the fields. Of \<open>self\<close> only the two counters are kept, the other
  attributes being read-only in the loop.
\<close>

datatype pyval = PyNone | PyStr pystr

type_synonym row = "pystr \<rightharpoonup> pyval"

record node =
  node_id :: pystr
  custom_name :: pyval
  namespace :: pystr
  identifier_field :: pystr
  identifier_type :: pystr
  mqtt_topic :: pystr

record generator =
  total_nodes_processed :: int
  topics_sanitized :: int

text \<open>The candidate topic \<open>f"telegraf/opcua/{identifier}"\<close>.\<close>

definition candidate_topic :: "pystr \<Rightarrow> pystr" where
  "candidate_topic ident = str ''telegraf/opcua/'' @ ident"

text \<open>
  The topic of one node: the candidate is validated and, when rejected, replaced by its
  sanitized form, and the rejection is counted on \<open>self\<close>. The validator's exception
  leaves before anything is counted.
\<close>

definition validated_topic :: "generator \<Rightarrow> pystr \<Rightarrow> error + generator \<times> pystr" where
  "validated_topic self identifier_v =
     (let mqtt_topic_v = candidate_topic identifier_v
      in case validate_mqtt_topic mqtt_topic_v of
           Inl e \<Rightarrow> Inl e
         | Inr valid \<Rightarrow>
             if \<not> valid
             then Inr (self\<lparr>topics_sanitized := topics_sanitized self + 1\<rparr>,
                       sanitize_mqtt_topic mqtt_topic_v)
             else Inr (self, mqtt_topic_v))"

text \<open>
  The body of the \<open>for row in reader\<close> loop. \<open>Inl\<close> is an exception leaving the loop (the
  \<open>except Exception\<close> around it ends the call); every mutation of the body comes after its
  last raising call, so the state at an exception is the state before the row.
\<close>

definition process_row :: "row \<Rightarrow> generator \<Rightarrow> node list \<Rightarrow> error + generator \<times> node list" where
  "process_row row self nodes =
     (if list_all (\<lambda>key. row key \<noteq> None) [str ''NodeId'', str ''CustomName''] then
        (case row (str ''NodeId'') of
           None \<Rightarrow> Inl KeyError
         | Some PyNone \<Rightarrow> Inl AttributeError
         | Some (PyStr row_node_id) \<Rightarrow>
            (case str_split row_node_id (str '';'') of
               Inl e \<Rightarrow> Inl e
             | Inr node_id_parts \<Rightarrow>
                if length node_id_parts \<noteq> 2 then Inr (self, nodes)
                else
                  (let namespace_v = str_replace (node_id_parts ! 0) (str ''ns='') [];
                       identifier_v = str_replace (node_id_parts ! 1) (str ''s='') []
                   in case validated_topic self identifier_v of
                        Inl e \<Rightarrow> Inl e
                      | Inr (self1, mqtt_topic_v) \<Rightarrow>
                         (case row (str ''CustomName'') of
                            None \<Rightarrow> Inl KeyError
                          | Some row_custom_name \<Rightarrow>
                             Inr (self1\<lparr>total_nodes_processed :=
                                          total_nodes_processed self1 + 1\<rparr>,
                                  nodes @ [\<lparr>node_id = row_node_id,
                                            custom_name = row_custom_name,
                                            namespace = namespace_v,
                                            identifier_field = identifier_v,
                                            identifier_type = str ''s'',
                                            mqtt_topic = mqtt_topic_v\<rparr>])))))
      else Inr (self, nodes))"

text \<open>
  The loop over the records: the result is the generator, the nodes and the exception
  that ended the loop, if any.
\<close>

fun process_rows :: "row list \<Rightarrow> generator \<Rightarrow> node list \<Rightarrow> generator \<times> node list \<times> error option" where
  "process_rows [] self nodes = (self, nodes, None)"
| "process_rows (row # rows) self nodes =
     (case process_row row self nodes of
        Inl e \<Rightarrow> (self, nodes, Some e)
      | Inr (self', nodes') \<Rightarrow> process_rows rows self' nodes')"

text \<open>The candidates among the stored nodes that the validator did not accept.\<close>

definition rejected_candidates :: "node list \<Rightarrow> node list" where
  "rejected_candidates nodes =
     filter (\<lambda>n. validate_mqtt_topic (candidate_topic (identifier_field n)) = Inr False) nodes"

text \<open>
  The topic the specification asks for: the candidate when the validator accepts it, the
  sanitizer's result for the candidate when it does not.
\<close>

definition expected_topic :: "pystr \<Rightarrow> pystr" where
  "expected_topic ident =
     (if validate_mqtt_topic (candidate_topic ident) = Inr True then candidate_topic ident
      else sanitize_mqtt_topic (candidate_topic ident))"

section \<open>Evaluating the primitives and the two operations\<close>

lemma str_simps [simp]:
  "str [] = []"
  "str (c # cs) = of_char c # str cs"
  by (simp_all add: str_def)

declare str_replace.simps [simp del]
declare split_from.simps [simp del]

lemma str_contains_single: "str_contains [c] s = (c \<in> set s)"
  by (induction s) auto

lemma str_replace_single: "str_replace s [c] [u] = map (\<lambda>x. if x = c then u else x) s"
  by (induction s) (auto simp add: str_replace.simps[of "[]"] str_replace.simps[of "_ # _"])

lemma split_from_single_length:
  "length (split_from [c] cur s) = Suc (length (filter (\<lambda>x. x = c) s))"
  by (induction s arbitrary: cur) (auto simp add: split_from.simps[of _ _ "[]"] split_from.simps[of _ _ "_ # _"])

lemma str_split_single:
  "str_split s [c] = Inr (split_from [c] [] s)"
  by (simp add: str_split_def)

lemma exclusion_check:
  "list_ex (\<lambda>char. str_contains char s) MQTT_TOPIC_EXCLUSION_CHARS
     = (\<exists>c \<in> set (str ''+#*>$''). c \<in> set s)"
  by (simp add: MQTT_TOPIC_EXCLUSION_CHARS_def str_contains_single)

lemma replace_restricted_eq: "replace_restricted s = replace_each_exclusion_char s"
  by (simp add: replace_restricted_def replace_each_exclusion_char_def
        MQTT_TOPIC_EXCLUSION_CHARS_def str_replace_single)

lemma no_dollar_after_replace: "36 \<notin> set (replace_each_exclusion_char s)"
  by (auto simp add: replace_each_exclusion_char_def)

lemma startswith_single: "startswith s [c] = (s \<noteq> [] \<and> hd s = c)"
  by (cases s) (auto simp add: startswith_def)

lemma sanitize_eq: "sanitize_mqtt_topic s = replace_each_exclusion_char s"
proof -
  have "\<not> startswith (replace_restricted s) (str ''$'')"
    using no_dollar_after_replace[of s]
    by (auto simp add: startswith_single replace_restricted_eq dest: hd_in_set)
  then show ?thesis
    by (simp add: sanitize_mqtt_topic_def Let_def replace_restricted_eq)
qed

lemma utf8_length_Nil: "utf8_length [] = Inr 0"
  by (simp add: utf8_length_def)

lemma utf8_length_Cons:
  "utf8_length (c # cs) =
     (case encode_codepoint c of Inl e \<Rightarrow> Inl e
      | Inr bs \<Rightarrow> (case utf8_length cs of Inl e \<Rightarrow> Inl e | Inr n \<Rightarrow> Inr (length bs + n)))"
  by (simp add: utf8_length_def split: sum.splits)

lemma encode_codepoint_ascii: "c < 128 \<Longrightarrow> encode_codepoint c = Inr [of_nat c]"
  by (simp add: encode_codepoint_def)

lemma utf8_length_ascii_Cons:
  "c < 128 \<Longrightarrow> utf8_length (c # cs) =
     (case utf8_length cs of Inl e \<Rightarrow> Inl e | Inr n \<Rightarrow> Inr (Suc n))"
  by (simp add: utf8_length_Cons encode_codepoint_ascii split: sum.splits)

lemma utf8_length_map_ascii:
  "(\<And>c. c \<in> set s \<Longrightarrow> f c \<noteq> c \<Longrightarrow> c < 128 \<and> f c < 128) \<Longrightarrow>
   utf8_length (map f s) = utf8_length s"
proof (induction s)
  case Nil
  show ?case by simp
next
  case (Cons c cs)
  have ih: "utf8_length (map f cs) = utf8_length cs"
    using Cons by simp
  show ?case
  proof (cases "f c = c")
    case True
    then show ?thesis by (simp add: utf8_length_Cons ih split: sum.splits)
  next
    case False
    then have "c < 128" "f c < 128" using Cons.prems[of c] by simp_all
    then show ?thesis by (simp add: utf8_length_ascii_Cons ih)
  qed
qed

lemma utf8_length_replace: "utf8_length (replace_each_exclusion_char s) = utf8_length s"
  unfolding replace_each_exclusion_char_def
  by (rule utf8_length_map_ascii) (auto split: if_splits)

lemma count_slash_replace:
  "filter (\<lambda>x. x = 47) (replace_each_exclusion_char s) = filter (\<lambda>x. x = 47) s"
  by (induction s) (auto simp add: replace_each_exclusion_char_def)

lemma replace_idem:
  "replace_each_exclusion_char (replace_each_exclusion_char s) = replace_each_exclusion_char s"
  by (induction s) (auto simp add: replace_each_exclusion_char_def)

lemma replace_id:
  "\<forall>c \<in> set (str ''+#*>$''). c \<notin> set s \<Longrightarrow> replace_each_exclusion_char s = s"
  by (induction s) (auto simp add: replace_each_exclusion_char_def)

lemma replace_clean:
  "\<forall>c \<in> set (str ''+#*>$''). c \<notin> set (replace_each_exclusion_char s)"
  by (auto simp add: replace_each_exclusion_char_def)

lemma encode_codepoint_scalar: "unicode_scalar c \<Longrightarrow> \<exists>bs. encode_codepoint c = Inr bs \<and> 1 \<le> length bs \<and> length bs \<le> 4"
  by (auto simp add: encode_codepoint_def unicode_scalar_def)

lemma encode_codepoint_Inr_iff: "(\<exists>bs. encode_codepoint c = Inr bs) = unicode_scalar c"
  by (auto simp add: encode_codepoint_def unicode_scalar_def)

lemma utf8_length_Inr_iff: "(\<exists>n. utf8_length s = Inr n) = utf8_string s"
proof (induction s)
  case Nil
  show ?case by (simp add: utf8_length_Nil utf8_string_def)
next
  case (Cons c cs)
  show ?case using Cons encode_codepoint_Inr_iff[of c]
    by (auto simp add: utf8_length_Cons utf8_string_def split: sum.splits)
qed

lemma startswith_Cons_in_set: "startswith s (c # p) \<Longrightarrow> c \<in> set s"
  by (cases s) (auto simp add: startswith_def)

lemma validate_char:
  "validate_mqtt_topic s =
    (if \<exists>c \<in> set (str ''+#*>$''). c \<in> set s then Inr False
     else case utf8_length s of Inl e \<Rightarrow> Inl e
          | Inr n \<Rightarrow> Inr (n \<le> 250 \<and> Suc (length (filter (\<lambda>x. x = 47) s)) \<le> 128))"
proof (cases "\<exists>c \<in> set (str ''+#*>$''). c \<in> set s")
  case True
  then show ?thesis
    by (simp add: validate_mqtt_topic_def exclusion_check)
next
  case False
  then have "36 \<notin> set s" by simp
  then have "\<not> startswith s [36]" using startswith_Cons_in_set by blast
  then show ?thesis using False
    by (simp add: validate_mqtt_topic_def exclusion_check
      str_split_single split_from_single_length split: sum.splits)
qed

lemma character_legal_iff: "character_legal s = (\<not> (\<exists>c \<in> set (str ''+#*>$''). c \<in> set s))"
  by (auto simp add: character_legal_def)

lemma character_legal_leading: "character_legal s \<Longrightarrow> leading_dollar_legal s"
  by (auto simp add: character_legal_def leading_dollar_legal_def dest: startswith_Cons_in_set)

lemma segment_count_split: "str_split s (str ''/'') = Inr levels \<Longrightarrow> length levels = segment_count s"
  by (auto simp add: str_split_single split_from_single_length segment_count_def)

lemma validate_checks:
  "validate_mqtt_topic s =
    (if \<not> character_legal s then Inr False
     else case utf8_length s of Inl e \<Rightarrow> Inl e
          | Inr n \<Rightarrow> Inr (n \<le> 250 \<and> depth_legal s))"
  by (simp add: validate_char character_legal_iff depth_legal_def segment_count_def split: sum.splits)

lemma utf8_string_replace: "utf8_string s \<Longrightarrow> utf8_string (replace_each_exclusion_char s)"
  by (induction s) (auto simp add: utf8_string_def replace_each_exclusion_char_def unicode_scalar_def)

lemma utf8_length_replicate_ascii: "c < 128 \<Longrightarrow> utf8_length (replicate k c) = Inr k"
  by (induction k) (simp_all add: utf8_length_Nil utf8_length_ascii_Cons)

lemma validated_topic_step:
  assumes "validated_topic self ident = Inr (self1, topic)"
  shows "topic = expected_topic ident \<and>
         topics_sanitized self1 = topics_sanitized self +
           (if validate_mqtt_topic (candidate_topic ident) = Inr True then 0 else 1) \<and>
         (\<exists>valid. validate_mqtt_topic (candidate_topic ident) = Inr valid)"
  using assms
  by (auto simp add: validated_topic_def expected_topic_def Let_def split: sum.splits if_splits)

lemma process_row_step:
  assumes "process_row row self nodes = Inr (self1, nodes1)"
  shows "(self1 = self \<and> nodes1 = nodes) \<or>
         (\<exists>n selfm. validated_topic self (identifier_field n) = Inr (selfm, mqtt_topic n) \<and>
             nodes1 = nodes @ [n] \<and>
             topics_sanitized self1 = topics_sanitized selfm)"
proof (cases "list_all (\<lambda>key. row key \<noteq> None) [str ''NodeId'', str ''CustomName'']")
  case False
  then show ?thesis using assms by (auto simp add: process_row_def)
next
  case True
  then obtain nid cn where nid: "row (str ''NodeId'') = Some nid"
    and cn: "row (str ''CustomName'') = Some cn" by auto
  show ?thesis
  proof (cases nid)
    case PyNone
    then show ?thesis using assms True nid by (simp add: process_row_def)
  next
    case (PyStr row_node_id)
    show ?thesis
    proof (cases "str_split row_node_id (str '';'')")
      case (Inl e)
      then show ?thesis using assms True nid PyStr by (simp add: process_row_def)
    next
      case (Inr parts)
      show ?thesis
      proof (cases "length parts \<noteq> 2")
        case True
        then show ?thesis using assms \<open>list_all _ _\<close> nid PyStr Inr
          by (simp add: process_row_def)
      next
        case False
        define ident where "ident = str_replace (parts ! 1) (str ''s='') []"
        show ?thesis
        proof (cases "validated_topic self ident")
          case (Inl e)
          then show ?thesis using assms \<open>list_all _ _\<close> nid PyStr Inr False
            by (simp add: process_row_def Let_def ident_def)
        next
          case (Inr r)
          obtain selfm topic where r: "r = (selfm, topic)" by (cases r)
          have "process_row row self nodes =
                 Inr (selfm\<lparr>total_nodes_processed := total_nodes_processed selfm + 1\<rparr>,
                      nodes @ [\<lparr>node_id = row_node_id, custom_name = cn,
                                namespace = str_replace (parts ! 0) (str ''ns='') [],
                                identifier_field = ident, identifier_type = str ''s'',
                                mqtt_topic = topic\<rparr>])"
            using \<open>list_all _ _\<close> nid cn PyStr \<open>str_split row_node_id (str '';'') = Inr parts\<close>
              False Inr r
            by (simp add: process_row_def Let_def ident_def)
          then have "self1 = selfm\<lparr>total_nodes_processed := total_nodes_processed selfm + 1\<rparr>"
            and "nodes1 = nodes @ [\<lparr>node_id = row_node_id, custom_name = cn,
                                namespace = str_replace (parts ! 0) (str ''ns='') [],
                                identifier_field = ident, identifier_type = str ''s'',
                                mqtt_topic = topic\<rparr>]"
            using assms by simp_all
          then show ?thesis using Inr r by auto
        qed
      qed
    qed
  qed
qed

lemma rejected_candidates_append:
  "rejected_candidates (xs @ ys) = rejected_candidates xs @ rejected_candidates ys"
  by (simp add: rejected_candidates_def)

lemma rejected_candidates_single:
  "validate_mqtt_topic (candidate_topic (identifier_field n)) = Inr valid \<Longrightarrow>
   int (length (rejected_candidates [n])) =
     (if validate_mqtt_topic (candidate_topic (identifier_field n)) = Inr True then 0 else 1)"
  by (cases valid) (simp_all add: rejected_candidates_def)

lemma process_row_invariant:
  assumes "process_row row self nodes = Inr (self1, nodes1)"
  shows "\<exists>new. nodes1 = nodes @ new \<and>
           (\<forall>n \<in> set new. mqtt_topic n = expected_topic (identifier_field n)) \<and>
           topics_sanitized self1 = topics_sanitized self + int (length (rejected_candidates new))"
proof -
  from process_row_step[OF assms] show ?thesis
  proof
    assume "self1 = self \<and> nodes1 = nodes"
    then have "nodes1 = nodes @ []" "topics_sanitized self1 = topics_sanitized self" by simp_all
    then show ?thesis by (intro exI[of _ "[]"]) (simp add: rejected_candidates_def)
  next
    assume "\<exists>n selfm. validated_topic self (identifier_field n) = Inr (selfm, mqtt_topic n) \<and>
             nodes1 = nodes @ [n] \<and> topics_sanitized self1 = topics_sanitized selfm"
    then obtain n selfm where
      v: "validated_topic self (identifier_field n) = Inr (selfm, mqtt_topic n)" and
      n: "nodes1 = nodes @ [n]" and
      c: "topics_sanitized self1 = topics_sanitized selfm"
      by blast
    from validated_topic_step[OF v] obtain valid where
      m: "mqtt_topic n = expected_topic (identifier_field n)" and
      k: "topics_sanitized selfm = topics_sanitized self +
           (if validate_mqtt_topic (candidate_topic (identifier_field n)) = Inr True then 0 else 1)" and
      b: "validate_mqtt_topic (candidate_topic (identifier_field n)) = Inr valid"
      by blast
    have "topics_sanitized self1 = topics_sanitized self + int (length (rejected_candidates [n]))"
      using c k rejected_candidates_single[OF b] by simp
    then show ?thesis using n m by (intro exI[of _ "[n]"]) simp
  qed
qed

lemma process_rows_invariant:
  "process_rows rows self nodes = (self1, nodes1, err) \<Longrightarrow>
   \<exists>new. nodes1 = nodes @ new \<and>
      (\<forall>n \<in> set new. mqtt_topic n = expected_topic (identifier_field n)) \<and>
      topics_sanitized self1 = topics_sanitized self + int (length (rejected_candidates new))"
proof (induction rows arbitrary: self nodes)
  case Nil
  then have "nodes1 = nodes @ []" "topics_sanitized self1 = topics_sanitized self" by simp_all
  then show ?case by (intro exI[of _ "[]"]) (simp add: rejected_candidates_def)
next
  case (Cons row rows)
  show ?case
  proof (cases "process_row row self nodes")
    case (Inl e)
    then have "nodes1 = nodes @ []" "topics_sanitized self1 = topics_sanitized self"
      using Cons.prems by simp_all
    then show ?thesis by (intro exI[of _ "[]"]) (simp add: rejected_candidates_def)
  next
    case (Inr r)
    obtain self2 nodes2 where r: "r = (self2, nodes2)" by (cases r)
    from Inr r have step: "process_row row self nodes = Inr (self2, nodes2)" by simp
    from process_row_invariant[OF step] obtain new1 where
      n1: "nodes2 = nodes @ new1" and
      t1: "\<forall>n \<in> set new1. mqtt_topic n = expected_topic (identifier_field n)" and
      c1: "topics_sanitized self2 = topics_sanitized self + int (length (rejected_candidates new1))"
      by blast
    from Cons.prems step have "process_rows rows self2 nodes2 = (self1, nodes1, err)" by simp
    from Cons.IH[OF this] obtain new2 where
      n2: "nodes1 = nodes2 @ new2" and
      t2: "\<forall>n \<in> set new2. mqtt_topic n = expected_topic (identifier_field n)" and
      c2: "topics_sanitized self1 = topics_sanitized self2 + int (length (rejected_candidates new2))"
      by blast
    have a: "nodes1 = nodes @ (new1 @ new2)" using n1 n2 by simp
    have b: "\<forall>n \<in> set (new1 @ new2). mqtt_topic n = expected_topic (identifier_field n)"
      using t1 t2 by auto
    have c: "topics_sanitized self1 =
        topics_sanitized self + int (length (rejected_candidates (new1 @ new2)))"
      using c1 c2 by (simp add: rejected_candidates_append)
    show ?thesis using a b c by blast
  qed
qed

text \<open>Outside the UTF-8 strings the length check raises: a lone surrogate has no encoding.\<close>

lemma validate_lone_surrogate_raises:
  "validate_mqtt_topic [0xD800] = Inl UnicodeEncodeError"
  by (simp add: validate_mqtt_topic_def MQTT_TOPIC_EXCLUSION_CHARS_def startswith_def
        utf8_length_def encode_codepoint_def)

section \<open>The claims\<close>

text \<open>
  C1. For a string whose UTF-8 length is \<open>n\<close> and which splits on \<open>/\<close> into \<open>levels\<close>:
  when \<open>n\<close> is at most 250 and there are at most 128 levels, the validator accepts the
  sanitized string; when \<open>n\<close> exceeds 250 or there are more than 128 levels, it rejects
  the sanitized string.
\<close>

theorem validate_after_sanitize:
  assumes "utf8_length s = Inr n" and "str_split s (str ''/'') = Inr levels"
  shows "(n \<le> 250 \<and> length levels \<le> 128 \<longrightarrow>
           validate_mqtt_topic (sanitize_mqtt_topic s) = Inr True) \<and>
         (250 < n \<or> 128 < length levels \<longrightarrow>
           validate_mqtt_topic (sanitize_mqtt_topic s) = Inr False)"
proof -
  have l: "length levels = Suc (length (filter (\<lambda>x. x = 47) s))"
    using assms(2) by (auto simp add: str_split_single split_from_single_length)
  have "validate_mqtt_topic (replace_each_exclusion_char s)
          = Inr (n \<le> 250 \<and> length levels \<le> 128)"
    using replace_clean[of s] assms(1)
    by (simp add: validate_char utf8_length_replace count_slash_replace l)
  then show ?thesis by (auto simp add: sanitize_eq)
qed

theorem validate_after_sanitize_witness:
  "validate_mqtt_topic (sanitize_mqtt_topic (str ''$dev+1/#x'')) = Inr True \<and>
   validate_mqtt_topic (sanitize_mqtt_topic (replicate 128 47)) = Inr False"
proof -
  have a: "utf8_length (str ''$dev+1/#x'') = Inr 9"
    by (simp add: utf8_length_def encode_codepoint_def)
  have b: "str_split (str ''$dev+1/#x'') (str ''/'') = Inr [str ''$dev+1'', str ''#x'']"
    by (simp add: str_split_def split_from.simps)
  have c: "utf8_length (replicate 128 47) = Inr 128"
    by (simp add: utf8_length_replicate_ascii)
  have d: "str_split (replicate 128 47) (str ''/'') = Inr (split_from [47] [] (replicate 128 47))"
    by (simp add: str_split_single)
  show ?thesis
    using validate_after_sanitize[OF a b] validate_after_sanitize[OF c d]
    by (simp add: split_from_single_length)
qed

text \<open>
  C2. The claim: a topic with a reserved prefix is returned unchanged, in particular
  \<open>sanitize_mqtt_topic("$SYS/foo") == "$SYS/foo"\<close>. The code returns \<open>"_SYS/foo"\<close>: the
  replacement loop has turned the leading \<open>$\<close> into \<open>_\<close> before the reserved prefixes
  are looked at.
\<close>

theorem sanitize_reserved_prefix_mangled:
  "sanitize_mqtt_topic (str ''$SYS/foo'') = str ''_SYS/foo''"
  by (simp add: sanitize_eq replace_each_exclusion_char_def)

text \<open>
  C3. The claim: \<open>validate_mqtt_topic("$SYS/broker/load")\<close> is true. The code returns
  false there: the first check rejects every topic that contains \<open>$\<close>, before the
  reserved prefixes are looked at.
\<close>

theorem validate_reserved_prefix_rejected:
  "validate_mqtt_topic (str ''$SYS/broker/load'') = Inr False"
  by (simp add: validate_mqtt_topic_def MQTT_TOPIC_EXCLUSION_CHARS_def)

text \<open>
  C4. Sanitization is idempotent: sanitizing a sanitized string changes nothing.
\<close>

theorem sanitize_idempotent:
  "sanitize_mqtt_topic (sanitize_mqtt_topic s) = sanitize_mqtt_topic s"
  by (simp add: sanitize_eq replace_idem)

text \<open>
  C5. The validator returns true exactly when the four checks of the specification pass;
  on a UTF-8 string its result is the conjunction of the four checks, so any failed check
  gives false; a failed character check gives false before the length is computed; the
  segments that \<open>split\<close> yields are one more than the \<open>/\<close> characters, and the empty
  string has one segment.
\<close>

theorem validate_decision_procedure:
  "(validate_mqtt_topic s = Inr True \<longleftrightarrow>
      character_legal s \<and> leading_dollar_legal s \<and> length_legal s \<and> depth_legal s) \<and>
   (utf8_string s \<longrightarrow>
      validate_mqtt_topic s =
        Inr (character_legal s \<and> leading_dollar_legal s \<and> length_legal s \<and> depth_legal s)) \<and>
   (\<not> character_legal s \<longrightarrow> validate_mqtt_topic s = Inr False) \<and>
   (\<exists>levels. str_split s (str ''/'') = Inr levels \<and> length levels = segment_count s) \<and>
   segment_count [] = 1"
proof -
  have a: "validate_mqtt_topic s = Inr True \<longleftrightarrow>
      character_legal s \<and> leading_dollar_legal s \<and> length_legal s \<and> depth_legal s"
    using character_legal_leading[of s]
    by (auto simp add: validate_checks length_legal_def split: sum.splits)
  have b: "utf8_string s \<longrightarrow>
      validate_mqtt_topic s =
        Inr (character_legal s \<and> leading_dollar_legal s \<and> length_legal s \<and> depth_legal s)"
    using character_legal_leading[of s] utf8_length_Inr_iff[of s]
    by (auto simp add: validate_checks length_legal_def split: sum.splits)
  have c: "\<not> character_legal s \<longrightarrow> validate_mqtt_topic s = Inr False"
    by (simp add: validate_checks)
  have d: "\<exists>levels. str_split s (str ''/'') = Inr levels \<and> length levels = segment_count s"
    by (simp add: str_split_single split_from_single_length segment_count_def)
  have e: "segment_count [] = 1"
    by (simp add: segment_count_def)
  show ?thesis using a b c d e by blast
qed

theorem validate_decision_procedure_witness:
  "validate_mqtt_topic (str ''telegraf/opcua/Temp'') = Inr True \<and>
   validate_mqtt_topic (str ''telegraf/opcua/Temp#1'') = Inr False"
proof -
  have a: "character_legal (str ''telegraf/opcua/Temp'')"
    by (simp add: character_legal_def)
  have b: "leading_dollar_legal (str ''telegraf/opcua/Temp'')"
    by (simp add: leading_dollar_legal_def startswith_def)
  have c: "length_legal (str ''telegraf/opcua/Temp'')"
    by (simp add: length_legal_def utf8_length_def encode_codepoint_def)
  have d: "depth_legal (str ''telegraf/opcua/Temp'')"
    by (simp add: depth_legal_def segment_count_def)
  have e: "\<not> character_legal (str ''telegraf/opcua/Temp#1'')"
    by (simp add: character_legal_def)
  show ?thesis
    using validate_decision_procedure[of "str ''telegraf/opcua/Temp''"]
          validate_decision_procedure[of "str ''telegraf/opcua/Temp#1''"] a b c d e
    by blast
qed

text \<open>
  C6. Sanitization changes neither the UTF-8 byte length nor the number of segments; a
  300-byte topic without exclusion characters is returned unchanged and is rejected by
  the validator before and after.
\<close>

theorem sanitize_keeps_length_and_depth:
  "utf8_length (sanitize_mqtt_topic s) = utf8_length s \<and>
   (\<exists>levels levels'. str_split s (str ''/'') = Inr levels \<and>
       str_split (sanitize_mqtt_topic s) (str ''/'') = Inr levels' \<and>
       length levels' = length levels) \<and>
   (utf8_length s = Inr 300 \<and> character_legal s \<longrightarrow>
       sanitize_mqtt_topic s = s \<and> validate_mqtt_topic s = Inr False \<and>
       validate_mqtt_topic (sanitize_mqtt_topic s) = Inr False)"
proof -
  have a: "utf8_length (sanitize_mqtt_topic s) = utf8_length s"
    by (simp add: sanitize_eq utf8_length_replace)
  have b: "\<exists>levels levels'. str_split s (str ''/'') = Inr levels \<and>
       str_split (sanitize_mqtt_topic s) (str ''/'') = Inr levels' \<and>
       length levels' = length levels"
    by (simp add: str_split_single split_from_single_length sanitize_eq count_slash_replace)
  have c: "utf8_length s = Inr 300 \<and> character_legal s \<longrightarrow>
       sanitize_mqtt_topic s = s \<and> validate_mqtt_topic s = Inr False \<and>
       validate_mqtt_topic (sanitize_mqtt_topic s) = Inr False"
    by (auto simp add: sanitize_eq replace_id character_legal_def validate_char)
  show ?thesis using a b c by blast
qed

theorem sanitize_keeps_length_and_depth_witness:
  "sanitize_mqtt_topic (replicate 300 97) = replicate 300 97 \<and>
   validate_mqtt_topic (replicate 300 97) = Inr False \<and>
   utf8_length (sanitize_mqtt_topic (replicate 300 97)) = Inr 300"
proof -
  have a: "utf8_length (replicate 300 97) = Inr 300"
    by (simp add: utf8_length_replicate_ascii)
  have b: "character_legal (replicate 300 97)"
    by (simp add: character_legal_def)
  show ?thesis
    using sanitize_keeps_length_and_depth[of "replicate 300 97"] a b by simp
qed

text \<open>
  C7. On every UTF-8 string the validator returns a boolean (no exception) and the
  sanitizer returns a UTF-8 string; on the empty string they return true and the empty
  string.
\<close>

theorem validate_sanitize_total:
  "(utf8_string s \<longrightarrow>
      (\<exists>b. validate_mqtt_topic s = Inr b) \<and> utf8_string (sanitize_mqtt_topic s)) \<and>
   validate_mqtt_topic [] = Inr True \<and> sanitize_mqtt_topic [] = []"
proof -
  have a: "utf8_string s \<longrightarrow> (\<exists>b. validate_mqtt_topic s = Inr b)"
    using utf8_length_Inr_iff[of s] by (auto simp add: validate_char)
  have b: "utf8_string s \<longrightarrow> utf8_string (sanitize_mqtt_topic s)"
    by (simp add: sanitize_eq utf8_string_replace)
  have c: "validate_mqtt_topic [] = Inr True"
    by (simp add: validate_char utf8_length_Nil)
  have d: "sanitize_mqtt_topic [] = []"
    by (simp add: sanitize_eq replace_each_exclusion_char_def)
  show ?thesis using a b c d by blast
qed

theorem validate_sanitize_total_witness:
  "(\<exists>b. validate_mqtt_topic [233, 0x20AC, 0x1F600, 36] = Inr b) \<and>
   utf8_string (sanitize_mqtt_topic [233, 0x20AC, 0x1F600, 36])"
proof -
  have a: "utf8_string [233, 0x20AC, 0x1F600, 36]"
    by (simp add: utf8_string_def unicode_scalar_def)
  show ?thesis
    using validate_sanitize_total[of "[233, 0x20AC, 0x1F600, 36]"] a by blast
qed

text \<open>
  C9. The sanitizer is the identity on the topics the validator accepts.
\<close>

theorem sanitize_identity_on_valid:
  "validate_mqtt_topic s = Inr True \<Longrightarrow> sanitize_mqtt_topic s = s"
  by (auto simp add: validate_checks sanitize_eq character_legal_def replace_id split: if_splits)

theorem sanitize_identity_on_valid_witness:
  "sanitize_mqtt_topic (str ''telegraf/opcua/Temp'') = str ''telegraf/opcua/Temp''"
proof -
  have a: "validate_mqtt_topic (str ''telegraf/opcua/Temp'') = Inr True"
    by (simp add: validate_mqtt_topic_def MQTT_TOPIC_EXCLUSION_CHARS_def startswith_def
          utf8_length_def encode_codepoint_def str_split_def split_from.simps)
  show ?thesis
    using sanitize_identity_on_valid[OF a] .
qed

text \<open>
  C10. The sanitizer equals the one-pass replacement of the five exclusion characters by
  \<open>_\<close>, and the string left by the replacement loop never starts with \<open>$\<close>, so the
  leading-dollar branch is never taken.
\<close>

theorem sanitize_is_plain_replacement:
  "sanitize_mqtt_topic s = replace_each_exclusion_char s \<and>
   \<not> startswith (replace_restricted s) (str ''$'')"
  using no_dollar_after_replace[of s] sanitize_eq[of s]
  by (auto simp add: startswith_single replace_restricted_eq dest: hd_in_set)

text \<open>
  C8. A row that is made into a node stores the candidate topic when the validator accepts
  it and the sanitized candidate when it does not, and raises the counter by one exactly
  in the second case; a row that makes no node leaves the counter alone. After the loop,
  from an empty node list, every stored topic is the expected one, and the counter has
  grown by the number of stored nodes whose candidate failed validation, so it never
  decreases.
\<close>

theorem topics_sanitized_counts_rejections:
  "(process_row row self nodes = Inr (self1, nodes1) \<and> nodes1 \<noteq> nodes \<longrightarrow>
      (\<exists>n. nodes1 = nodes @ [n] \<and> mqtt_topic n = expected_topic (identifier_field n) \<and>
           topics_sanitized self1 = topics_sanitized self +
             (if validate_mqtt_topic (candidate_topic (identifier_field n)) = Inr True
              then 0 else 1))) \<and>
   (process_row row self nodes = Inr (self1, nodes1) \<and> nodes1 = nodes \<longrightarrow>
      topics_sanitized self1 = topics_sanitized self) \<and>
   (process_rows rows self [] = (self2, nodes2, err) \<longrightarrow>
      (\<forall>n \<in> set nodes2. mqtt_topic n = expected_topic (identifier_field n)) \<and>
      topics_sanitized self2 = topics_sanitized self + int (length (rejected_candidates nodes2)) \<and>
      topics_sanitized self \<le> topics_sanitized self2)"
proof -
  have a: "process_row row self nodes = Inr (self1, nodes1) \<and> nodes1 \<noteq> nodes \<longrightarrow>
      (\<exists>n. nodes1 = nodes @ [n] \<and> mqtt_topic n = expected_topic (identifier_field n) \<and>
           topics_sanitized self1 = topics_sanitized self +
             (if validate_mqtt_topic (candidate_topic (identifier_field n)) = Inr True
              then 0 else 1))"
  proof
    assume h: "process_row row self nodes = Inr (self1, nodes1) \<and> nodes1 \<noteq> nodes"
    then have "\<exists>n selfm. validated_topic self (identifier_field n) = Inr (selfm, mqtt_topic n) \<and>
             nodes1 = nodes @ [n] \<and> topics_sanitized self1 = topics_sanitized selfm"
      using process_row_step[of row self nodes self1 nodes1] by blast
    then obtain n selfm where
      v: "validated_topic self (identifier_field n) = Inr (selfm, mqtt_topic n)" and
      n: "nodes1 = nodes @ [n]" and
      c: "topics_sanitized self1 = topics_sanitized selfm"
      by blast
    from validated_topic_step[OF v] c n
    show "\<exists>n. nodes1 = nodes @ [n] \<and> mqtt_topic n = expected_topic (identifier_field n) \<and>
           topics_sanitized self1 = topics_sanitized self +
             (if validate_mqtt_topic (candidate_topic (identifier_field n)) = Inr True
              then 0 else 1)"
      by (intro exI[of _ n]) simp
  qed
  have b: "process_row row self nodes = Inr (self1, nodes1) \<and> nodes1 = nodes \<longrightarrow>
      topics_sanitized self1 = topics_sanitized self"
    using process_row_step[of row self nodes self1 nodes1] by auto
  have c: "process_rows rows self [] = (self2, nodes2, err) \<longrightarrow>
      (\<forall>n \<in> set nodes2. mqtt_topic n = expected_topic (identifier_field n)) \<and>
      topics_sanitized self2 = topics_sanitized self + int (length (rejected_candidates nodes2)) \<and>
      topics_sanitized self \<le> topics_sanitized self2"
    using process_rows_invariant[of rows self "[]" self2 nodes2 err] by auto
  show ?thesis using a b c by blast
qed

theorem topics_sanitized_counts_rejections_witness:
  "process_rows
     [[str ''NodeId'' \<mapsto> PyStr (str ''ns=2;s=Temp#1''), str ''CustomName'' \<mapsto> PyStr (str ''T'')],
      [str ''NodeId'' \<mapsto> PyStr (str ''ns=2;s=Ok''), str ''CustomName'' \<mapsto> PyStr (str ''P'')]]
     \<lparr>total_nodes_processed = 0, topics_sanitized = 0\<rparr> [] =
     (\<lparr>total_nodes_processed = 2, topics_sanitized = 1\<rparr>,
      [\<lparr>node_id = str ''ns=2;s=Temp#1'', custom_name = PyStr (str ''T''), namespace = str ''2'',
        identifier_field = str ''Temp#1'', identifier_type = str ''s'',
        mqtt_topic = str ''telegraf/opcua/Temp_1''\<rparr>,
       \<lparr>node_id = str ''ns=2;s=Ok'', custom_name = PyStr (str ''P''), namespace = str ''2'',
        identifier_field = str ''Ok'', identifier_type = str ''s'',
        mqtt_topic = str ''telegraf/opcua/Ok''\<rparr>],
      None) \<and>
   (1::int) = 0 + int (length (rejected_candidates
      [\<lparr>node_id = str ''ns=2;s=Temp#1'', custom_name = PyStr (str ''T''), namespace = str ''2'',
        identifier_field = str ''Temp#1'', identifier_type = str ''s'',
        mqtt_topic = str ''telegraf/opcua/Temp_1''\<rparr>,
       \<lparr>node_id = str ''ns=2;s=Ok'', custom_name = PyStr (str ''P''), namespace = str ''2'',
        identifier_field = str ''Ok'', identifier_type = str ''s'',
        mqtt_topic = str ''telegraf/opcua/Ok''\<rparr>]))"
proof -
  have v1: "validate_mqtt_topic (candidate_topic (str ''Temp#1'')) = Inr False"
    by (simp add: validate_char candidate_topic_def)
  have s1: "sanitize_mqtt_topic (candidate_topic (str ''Temp#1'')) = str ''telegraf/opcua/Temp_1''"
    by (simp add: sanitize_eq replace_each_exclusion_char_def candidate_topic_def)
  have v2: "validate_mqtt_topic (candidate_topic (str ''Ok'')) = Inr True"
    by (simp add: validate_char candidate_topic_def utf8_length_def encode_codepoint_def)
  have c2: "candidate_topic (str ''Ok'') = str ''telegraf/opcua/Ok''"
    by (simp add: candidate_topic_def)
  have p1: "str_split (str ''ns=2;s=Temp#1'') (str '';'') = Inr [str ''ns=2'', str ''s=Temp#1'']"
    by (simp add: str_split_def split_from.simps)
  have p2: "str_split (str ''ns=2;s=Ok'') (str '';'') = Inr [str ''ns=2'', str ''s=Ok'']"
    by (simp add: str_split_def split_from.simps)
  have r0: "str_replace (str ''ns=2'') (str ''ns='') [] = str ''2''"
    by (simp add: str_replace.simps)
  have r1: "str_replace (str ''s=Temp#1'') (str ''s='') [] = str ''Temp#1''"
    by (simp add: str_replace.simps)
  have r2: "str_replace (str ''s=Ok'') (str ''s='') [] = str ''Ok''"
    by (simp add: str_replace.simps)
  have h: "process_rows
     [[str ''NodeId'' \<mapsto> PyStr (str ''ns=2;s=Temp#1''), str ''CustomName'' \<mapsto> PyStr (str ''T'')],
      [str ''NodeId'' \<mapsto> PyStr (str ''ns=2;s=Ok''), str ''CustomName'' \<mapsto> PyStr (str ''P'')]]
     \<lparr>total_nodes_processed = 0, topics_sanitized = 0\<rparr> [] =
     (\<lparr>total_nodes_processed = 2, topics_sanitized = 1\<rparr>,
      [\<lparr>node_id = str ''ns=2;s=Temp#1'', custom_name = PyStr (str ''T''), namespace = str ''2'',
        identifier_field = str ''Temp#1'', identifier_type = str ''s'',
        mqtt_topic = str ''telegraf/opcua/Temp_1''\<rparr>,
       \<lparr>node_id = str ''ns=2;s=Ok'', custom_name = PyStr (str ''P''), namespace = str ''2'',
        identifier_field = str ''Ok'', identifier_type = str ''s'',
        mqtt_topic = str ''telegraf/opcua/Ok''\<rparr>],
      None)"
    using v1 s1 v2 c2 p1 p2 r0 r1 r2
    by (simp add: process_row_def validated_topic_def Let_def)
  let ?rows = "[[str ''NodeId'' \<mapsto> PyStr (str ''ns=2;s=Temp#1''), str ''CustomName'' \<mapsto> PyStr (str ''T'')],
      [str ''NodeId'' \<mapsto> PyStr (str ''ns=2;s=Ok''), str ''CustomName'' \<mapsto> PyStr (str ''P'')]]"
  let ?self = "\<lparr>total_nodes_processed = 0, topics_sanitized = 0\<rparr>"
  let ?self2 = "\<lparr>total_nodes_processed = 2, topics_sanitized = 1\<rparr>"
  let ?nodes2 = "[\<lparr>node_id = str ''ns=2;s=Temp#1'', custom_name = PyStr (str ''T''), namespace = str ''2'',
        identifier_field = str ''Temp#1'', identifier_type = str ''s'',
        mqtt_topic = str ''telegraf/opcua/Temp_1''\<rparr>,
       \<lparr>node_id = str ''ns=2;s=Ok'', custom_name = PyStr (str ''P''), namespace = str ''2'',
        identifier_field = str ''Ok'', identifier_type = str ''s'',
        mqtt_topic = str ''telegraf/opcua/Ok''\<rparr>]"
  have "process_rows ?rows ?self [] = (?self2, ?nodes2, None) \<longrightarrow>
      (\<forall>n \<in> set ?nodes2. mqtt_topic n = expected_topic (identifier_field n)) \<and>
      topics_sanitized ?self2 = topics_sanitized ?self + int (length (rejected_candidates ?nodes2)) \<and>
      topics_sanitized ?self \<le> topics_sanitized ?self2"
    using topics_sanitized_counts_rejections[where rows = ?rows and self = ?self
      and ?self2.0 = ?self2 and ?nodes2.0 = ?nodes2 and err = None]
    by (rule conjunct2[THEN conjunct2])
  from this[rule_format, OF h]
  have "topics_sanitized ?self2 = topics_sanitized ?self + int (length (rejected_candidates ?nodes2))"
    by (rule conjunct2[THEN conjunct1])
  then have "(1::int) = 0 + int (length (rejected_candidates ?nodes2))"
    by (simp only: generator.simps)
  with h show ?thesis by (rule conjI)
qed

end
